theory Spec2Isabelle
  imports Main
begin

section \<open>Python values as read from a property list\<close>

text \<open>
  The module \<^verbatim>\<open>lstools_darwin.py\<close> works on the untyped trees that
  \<^verbatim>\<open>plistlib.readPlist\<close> returns: dictionaries with string keys, lists, strings and
  numbers, to which the code itself adds \<^verbatim>\<open>None\<close>.  A plist boolean is a Python
  \<^verbatim>\<open>bool\<close>, a subclass of \<^verbatim>\<open>int\<close> that behaves as 1 or 0 under every
  operation this module applies (\<^verbatim>\<open>in\<close>, \<^verbatim>\<open>==\<close>, indexing, iteration, truth
  value), so it is a \<open>PInt\<close> here.  A dictionary is an association list in its
  iteration order; the keys of a well-formed one are distinct.
\<close>

datatype pyval =
    PNone
  | PInt int
  | PStr string
  | PList "pyval list"
  | PDict "(string \<times> pyval) list"

text \<open>The exceptions the modelled operations raise.\<close>

datatype error = TypeError | KeyError | AttributeError

text \<open>\<^verbatim>\<open>a == b\<close>: lists are equal element by element, dictionaries when they hold the
  same keys with equal values, whatever the order.\<close>

fun py_eq :: "pyval \<Rightarrow> pyval \<Rightarrow> bool" where
  "py_eq (PList xs) (PList ys) = list_all2 py_eq xs ys"
| "py_eq (PDict a) (PDict b) =
     (length a = length b \<and>
      list_all (\<lambda>kv. case map_of b (fst kv) of None \<Rightarrow> False | Some w \<Rightarrow> py_eq (snd kv) w) a)"
| "py_eq x y = (x = y)"

text \<open>The truth value of \<^verbatim>\<open>if v:\<close>.\<close>

fun truthy :: "pyval \<Rightarrow> bool" where
  "truthy PNone = False"
| "truthy (PInt n) = (n \<noteq> 0)"
| "truthy (PStr s) = (s \<noteq> [])"
| "truthy (PList xs) = (xs \<noteq> [])"
| "truthy (PDict d) = (d \<noteq> [])"

text \<open>Lists and dictionaries cannot be hashed: using one as a dictionary key raises
  \<^verbatim>\<open>TypeError\<close>.\<close>

fun hashable :: "pyval \<Rightarrow> bool" where
  "hashable (PList xs) = False"
| "hashable (PDict d) = False"
| "hashable v = True"

fun str_prefix :: "string \<Rightarrow> string \<Rightarrow> bool" where
  "str_prefix [] s = True"
| "str_prefix (c # cs) [] = False"
| "str_prefix (c # cs) (d # ds) = (c = d \<and> str_prefix cs ds)"

text \<open>\<open>str_contains t s\<close>: the string \<open>t\<close> occurs in \<open>s\<close> (\<^verbatim>\<open>t in s\<close> on two strings).\<close>

fun str_contains :: "string \<Rightarrow> string \<Rightarrow> bool" where
  "str_contains t [] = (t = [])"
| "str_contains t (c # cs) = (str_prefix t (c # cs) \<or> str_contains t cs)"

text \<open>\<^verbatim>\<open>k in v\<close>: key membership in a dictionary, element membership in a list,
  substring test on a string; \<^verbatim>\<open>None\<close> and numbers are not iterable.\<close>

fun py_in :: "pyval \<Rightarrow> pyval \<Rightarrow> error + bool" where
  "py_in k (PDict d) =
     (if hashable k then Inr (list_ex (\<lambda>kv. PStr (fst kv) = k) d) else Inl TypeError)"
| "py_in k (PList xs) = Inr (list_ex (\<lambda>x. py_eq x k) xs)"
| "py_in k (PStr s) = (case k of PStr t \<Rightarrow> Inr (str_contains t s) | _ \<Rightarrow> Inl TypeError)"
| "py_in k PNone = Inl TypeError"
| "py_in k (PInt n) = Inl TypeError"

text \<open>\<^verbatim>\<open>v[key]\<close> with a string key, the only kind of subscript the module writes: a
  dictionary answers or raises \<^verbatim>\<open>KeyError\<close>; a list or a string wants an integer
  index and every other value has no subscript, both \<^verbatim>\<open>TypeError\<close>.\<close>

fun py_getitem :: "pyval \<Rightarrow> string \<Rightarrow> error + pyval" where
  "py_getitem (PDict d) key = (case map_of d key of None \<Rightarrow> Inl KeyError | Some v \<Rightarrow> Inr v)"
| "py_getitem v key = Inl TypeError"

text \<open>\<^verbatim>\<open>for x in v\<close>: a list yields its elements, a dictionary its keys, a string its
  characters (strings of length one).\<close>

fun py_iter :: "pyval \<Rightarrow> error + pyval list" where
  "py_iter (PList xs) = Inr xs"
| "py_iter (PDict d) = Inr (map (\<lambda>kv. PStr (fst kv)) d)"
| "py_iter (PStr s) = Inr (map (\<lambda>c. PStr [c]) s)"
| "py_iter PNone = Inl TypeError"
| "py_iter (PInt n) = Inl TypeError"

text \<open>\<^verbatim>\<open>v[:4]\<close>.\<close>

fun py_slice4 :: "pyval \<Rightarrow> error + pyval" where
  "py_slice4 (PStr s) = Inr (PStr (take 4 s))"
| "py_slice4 (PList xs) = Inr (PList (take 4 xs))"
| "py_slice4 v = Inl TypeError"

section \<open>The board pattern\<close>

text \<open>
  \<^verbatim>\<open>mbed_volume_name_match = re.compile(r'(\bmbed\b|\bSEGGER MSD\b)', re.I)\<close>.
  Without the UNICODE and LOCALE flags a word character is an ASCII letter, digit or
  underscore, and case is ignored by mapping ASCII capitals to small letters.
  \<open>\b\<close> holds between two positions when exactly one of the neighbouring characters
  is a word character (the ends of the string count as non-word).
\<close>

definition is_word_char :: "char \<Rightarrow> bool" where
  "is_word_char c =
     (let n = (of_char c :: nat)
      in (48 \<le> n \<and> n \<le> 57) \<or> (65 \<le> n \<and> n \<le> 90) \<or> n = 95 \<or> (97 \<le> n \<and> n \<le> 122))"

definition lower_char :: "char \<Rightarrow> char" where
  "lower_char c =
     (let n = (of_char c :: nat) in if 65 \<le> n \<and> n \<le> 90 then char_of (n + 32) else c)"

text \<open>\<open>word_boundary prev rest\<close>: the position whose previous character is \<open>prev\<close>
  (if any) and whose remaining input is \<open>rest\<close> is a word boundary.\<close>

definition word_boundary :: "char option \<Rightarrow> string \<Rightarrow> bool" where
  "word_boundary prev rest =
     ((case prev of None \<Rightarrow> False | Some c \<Rightarrow> is_word_char c) \<noteq>
      (case rest of [] \<Rightarrow> False | c # cs \<Rightarrow> is_word_char c))"

text \<open>Matching a literal (given in small letters) at the current position, ignoring
  case: the character last consumed and the input left over.\<close>

fun match_literal :: "string \<Rightarrow> char option \<Rightarrow> string \<Rightarrow> (char option \<times> string) option" where
  "match_literal [] prev s = Some (prev, s)"
| "match_literal (p # ps) prev [] = None"
| "match_literal (p # ps) prev (c # cs) =
     (if lower_char c = p then match_literal ps (Some c) cs else None)"

text \<open>One alternative, \<open>\bLIT\b\<close>, at the current position.\<close>

definition match_word :: "string \<Rightarrow> char option \<Rightarrow> string \<Rightarrow> bool" where
  "match_word lit prev s =
     (word_boundary prev s \<and>
      (case match_literal lit prev s of
         None \<Rightarrow> False
       | Some (prev', rest) \<Rightarrow> word_boundary prev' rest))"

definition match_at :: "char option \<Rightarrow> string \<Rightarrow> bool" where
  "match_at prev s = (match_word ''mbed'' prev s \<or> match_word ''segger msd'' prev s)"

text \<open>\<^verbatim>\<open>search\<close> tries every start position from left to right.\<close>

fun search_from :: "char option \<Rightarrow> string \<Rightarrow> bool" where
  "search_from prev [] = match_at prev []"
| "search_from prev (c # cs) = (match_at prev (c # cs) \<or> search_from (Some c) cs)"

text \<open>\<^verbatim>\<open>self.mbed_volume_name_match.search(v)\<close>, read as a truth value; a subject that
  is not a string raises \<^verbatim>\<open>TypeError\<close>.\<close>

definition mbed_volume_name_match :: "pyval \<Rightarrow> error + bool" where
  "mbed_volume_name_match v =
     (case v of PStr s \<Rightarrow> Inr (search_from None s) | _ \<Rightarrow> Inl TypeError)"

text \<open>The pattern in the specification's words: the string contains the word, in any
  mix of cases, with no word character directly before or after it.\<close>

definition contains_whole_word :: "string \<Rightarrow> string \<Rightarrow> bool" where
  "contains_whole_word w s =
     (\<exists>pre mid post. s = pre @ mid @ post \<and> map lower_char mid = w \<and>
        (pre = [] \<or> \<not> is_word_char (last pre)) \<and>
        (post = [] \<or> \<not> is_word_char (hd post)))"

definition board_pattern_spec :: "string \<Rightarrow> bool" where
  "board_pattern_spec s = (contains_whole_word ''mbed'' s \<or> contains_whole_word ''segger msd'' s)"

section \<open>Tree navigation\<close>

text \<open>
  \<^verbatim>\<open>def has_children(obj, child_key='IORegistryEntryChildren'):
      if obj is not None and 'IORegistryEntryChildren' in obj: return True
      return False\<close>
  The test names the literal key, not the parameter.
\<close>

definition has_children :: "pyval \<Rightarrow> string \<Rightarrow> error + bool" where
  "has_children obj child_key =
     (if obj \<noteq> PNone then py_in (PStr ''IORegistryEntryChildren'') obj else Inr False)"

text \<open>
  \<^verbatim>\<open>def get_children(obj, child_key='IORegistryEntryChildren'):
      if has_children(obj, child_key=child_key): return obj[child_key]
      return None\<close>
\<close>

definition get_children :: "pyval \<Rightarrow> string \<Rightarrow> error + pyval" where
  "get_children obj child_key =
     (case has_children obj child_key of
        Inl e \<Rightarrow> Inl e
      | Inr True \<Rightarrow> py_getitem obj child_key
      | Inr False \<Rightarrow> Inr PNone)"

text \<open>Every call in the module leaves \<^verbatim>\<open>child_key\<close> at its default.\<close>

definition child_key_default :: string where
  "child_key_default = ''IORegistryEntryChildren''"

text \<open>A value stored under a key of a dictionary is smaller than the dictionary: the
  recursions below descend only into such values.\<close>

lemma map_of_size: "map_of d k = Some v \<Longrightarrow> size v < size (PDict d)"
  by (induction d) (auto split: if_splits)

section \<open>The USB topology filter\<close>

text \<open>
  \<^verbatim>\<open>search_term = i['_name']
  if 'manufacturer' in i:
      search_term += ' ' + i['manufacturer']\<close>
  \<^verbatim>\<open>' ' + m\<close> wants a string \<open>m\<close>; \<^verbatim>\<open>+=\<close> then appends to a string, or extends a
  list by the characters.
\<close>

definition search_term :: "pyval \<Rightarrow> error + pyval" where
  "search_term i =
     (case py_getitem i ''_name'' of
        Inl e \<Rightarrow> Inl e
      | Inr name \<Rightarrow>
          (case py_in (PStr ''manufacturer'') i of
             Inl e \<Rightarrow> Inl e
           | Inr False \<Rightarrow> Inr name
           | Inr True \<Rightarrow>
               (case py_getitem i ''manufacturer'' of
                  Inl e \<Rightarrow> Inl e
                | Inr (PStr m) \<Rightarrow>
                    (case name of
                       PStr n \<Rightarrow> Inr (PStr (n @ '' '' @ m))
                     | PList xs \<Rightarrow> Inr (PList (xs @ map (\<lambda>c. PStr [c]) ('' '' @ m)))
                     | _ \<Rightarrow> Inl TypeError)
                | Inr _ \<Rightarrow> Inl TypeError)))"

text \<open>\<^verbatim>\<open>self.mbed_volume_name_match.search(search_term) and 'bsd_name' in i\<close>\<close>

definition fsp_match :: "pyval \<Rightarrow> error + bool" where
  "fsp_match i =
     (case search_term i of
        Inl e \<Rightarrow> Inl e
      | Inr t \<Rightarrow>
          (case mbed_volume_name_match t of
             Inl e \<Rightarrow> Inl e
           | Inr False \<Rightarrow> Inr False
           | Inr True \<Rightarrow> py_in (PStr ''bsd_name'') i))"

text \<open>
  \<^verbatim>\<open>def filter_system_profiler(obj):
      r = []
      if not isinstance(obj, list): obj = [obj]
      for o in obj:
          for x in filter(lambda k: k == '_items', o.keys()):
              try:
                  for i in o['_items']:
                      if '_items' in i: r.extend(filter_system_profiler(i))
                      search_term = ...
                      if ...search(search_term) and 'bsd_name' in i: r.append(i)
              except:
                  continue
      return r\<close>

  \<^item> \<open>fsp_objs\<close> is the loop \<^verbatim>\<open>for o in obj\<close> over a list; an \<open>obj\<close> that is no list
    is wrapped into a list of one, so the loop body \<open>fsp_obj\<close> runs on it once.
  \<^item> \<open>fsp_obj\<close> is the body: \<^verbatim>\<open>o.keys()\<close> exists on a dictionary only
    (\<^verbatim>\<open>AttributeError\<close> otherwise, outside every \<^verbatim>\<open>try\<close>), and the \<^verbatim>\<open>try\<close>
    block runs once per key that equals \<^verbatim>\<open>'_items'\<close>.
  \<^item> \<open>fsp_items\<close> is the loop inside the \<^verbatim>\<open>try\<close>: the matches appended to \<open>r\<close>
    until the loop ends or an exception ends it (\<open>r\<close> is extended in place, so
    what was appended before the exception stays).  When \<^verbatim>\<open>o['_items']\<close> is not
    a list the loop adds nothing: \<^verbatim>\<open>None\<close> and numbers are not iterable, and
    the keys of a dictionary or the characters of a string are strings \<open>i\<close>, on
    which either the recursive call raises (\<^verbatim>\<open>i.keys()\<close>) or \<^verbatim>\<open>i['_name']\<close> does;
    all of that is caught.
\<close>

function filter_system_profiler :: "pyval \<Rightarrow> error + pyval list"
  and fsp_objs :: "pyval list \<Rightarrow> error + pyval list"
  and fsp_obj :: "pyval \<Rightarrow> error + pyval list"
  and fsp_items :: "pyval list \<Rightarrow> pyval list"
where
  "filter_system_profiler obj = (case obj of PList os \<Rightarrow> fsp_objs os | _ \<Rightarrow> fsp_obj obj)"
| "fsp_objs [] = Inr []"
| "fsp_objs (ob # os) =
     (case fsp_obj ob of
        Inl e \<Rightarrow> Inl e
      | Inr r1 \<Rightarrow> (case fsp_objs os of Inl e \<Rightarrow> Inl e | Inr r2 \<Rightarrow> Inr (r1 @ r2)))"
| "fsp_obj ob =
     (case ob of
        PDict d \<Rightarrow>
          Inr (concat (map
            (\<lambda>x. case map_of d ''_items'' of
                   Some (PList xs) \<Rightarrow> fsp_items xs
                 | _ \<Rightarrow> [])
            (filter (\<lambda>k. k = ''_items'') (map fst d))))
      | _ \<Rightarrow> Inl AttributeError)"
| "fsp_items [] = []"
| "fsp_items (i # rest) =
     (case py_in (PStr ''_items'') i of
        Inl e \<Rightarrow> []
      | Inr c \<Rightarrow>
          (case (if c then filter_system_profiler i else Inr []) of
             Inl e \<Rightarrow> []
           | Inr sub \<Rightarrow>
               (case fsp_match i of
                  Inl e \<Rightarrow> sub
                | Inr m \<Rightarrow> sub @ (if m then [i] else []) @ fsp_items rest)))"
  by pat_completeness auto
termination
  apply (relation "measure (\<lambda>x. case x of
      Inl (Inl obj) \<Rightarrow> 2 * size obj + 1
    | Inl (Inr os) \<Rightarrow> 2 * size_list size os
    | Inr (Inl ob) \<Rightarrow> 2 * size ob
    | Inr (Inr xs) \<Rightarrow> 2 * size_list size xs)")
  apply (auto dest: map_of_size)
  done

text \<open>
  \<^verbatim>\<open>def get_disk_id(obj, sn):
      try:
          for dev in obj:
              if 'serial_num' in dev and 'bsd_name' in dev and dev['serial_num'] == sn:
                  return dev['bsd_name']
      except:
          return None\<close>
  \<open>get_disk_id_scan\<close> is the loop inside the \<^verbatim>\<open>try\<close>; falling off its end
  returns \<^verbatim>\<open>None\<close>.
\<close>

fun get_disk_id_scan :: "pyval list \<Rightarrow> pyval \<Rightarrow> error + pyval" where
  "get_disk_id_scan [] sn = Inr PNone"
| "get_disk_id_scan (dev # rest) sn =
     (case py_in (PStr ''serial_num'') dev of
        Inl e \<Rightarrow> Inl e
      | Inr False \<Rightarrow> get_disk_id_scan rest sn
      | Inr True \<Rightarrow>
          (case py_in (PStr ''bsd_name'') dev of
             Inl e \<Rightarrow> Inl e
           | Inr False \<Rightarrow> get_disk_id_scan rest sn
           | Inr True \<Rightarrow>
               (case py_getitem dev ''serial_num'' of
                  Inl e \<Rightarrow> Inl e
                | Inr v \<Rightarrow>
                    if py_eq v sn then py_getitem dev ''bsd_name''
                    else get_disk_id_scan rest sn)))"

definition get_disk_id :: "pyval \<Rightarrow> pyval \<Rightarrow> pyval" where
  "get_disk_id obj sn =
     (case py_iter obj of
        Inl e \<Rightarrow> PNone
      | Inr devs \<Rightarrow> (case get_disk_id_scan devs sn of Inl e \<Rightarrow> PNone | Inr v \<Rightarrow> v))"

section \<open>The device correlator\<close>

text \<open>
  \<^verbatim>\<open>def find_tty(obj):
      if isinstance(obj, dict) and 'IODialinDevice' in obj:
          return obj['IODialinDevice']
      if has_children(obj):
          return find_tty(get_children(obj))
      return None\<close>
\<close>

function find_tty :: "pyval \<Rightarrow> error + pyval" where
  "find_tty obj =
     (if (case obj of PDict d \<Rightarrow> map_of d ''IODialinDevice'' \<noteq> None | _ \<Rightarrow> False)
      then py_getitem obj ''IODialinDevice''
      else (case has_children obj child_key_default of
              Inl e \<Rightarrow> Inl e
            | Inr True \<Rightarrow>
                (case get_children obj child_key_default of
                   Inl e \<Rightarrow> Inl e
                 | Inr c \<Rightarrow> find_tty c)
            | Inr False \<Rightarrow> Inr PNone))"
  by pat_completeness auto
termination
  apply (relation "measure size")
  apply (auto simp: get_children_def child_key_default_def
      split: sum.splits bool.splits pyval.splits option.splits dest: map_of_size)
  done

text \<open>\<^verbatim>\<open>usb_info = {'serial': None, 'vendor_id': None, 'product_id': None, 'tty': None}\<close>:
  a dictionary with these four keys throughout.\<close>

record usb_info =
  serial :: pyval
  vendor_id :: pyval
  product_id :: pyval
  tty :: pyval

text \<open>\<^verbatim>\<open>d[k] = v\<close> on a dictionary kept as an association list.\<close>

fun dict_set :: "'k \<Rightarrow> 'v \<Rightarrow> ('k \<times> 'v) list \<Rightarrow> ('k \<times> 'v) list" where
  "dict_set k v [] = [(k, v)]"
| "dict_set k v ((k', v') # r) =
     (if k' = k then (k, v) # r else (k', v') # dict_set k v r)"

text \<open>
  The body of the \<^verbatim>\<open>elif\<close> branch of \<^verbatim>\<open>set_mbed_devs\<close>, run when a name or
  vendor string of \<open>obj\<close> matches the board pattern.  \<open>r\<close> is the result map of
  \<^verbatim>\<open>get_mbed_volumes\<close>, keyed by disk id; a disk id that cannot be hashed makes
  \<^verbatim>\<open>r[disk_id] = usb_info\<close> raise.
\<close>

definition record_match ::
  "pyval \<Rightarrow> (string \<times> pyval) list \<Rightarrow> (pyval \<times> usb_info) list \<Rightarrow> error + (pyval \<times> usb_info) list"
where
  "record_match mbed_drives obj r =
     (let info = \<lparr>serial = PNone,
                  vendor_id = (case map_of obj ''idVendor'' of Some v \<Rightarrow> v | None \<Rightarrow> PNone),
                  product_id = (case map_of obj ''idProduct'' of Some v \<Rightarrow> v | None \<Rightarrow> PNone),
                  tty = PNone\<rparr>
      in case map_of obj ''USB Serial Number'' of
           None \<Rightarrow> Inr r
         | Some sn \<Rightarrow>
             (case find_tty (PDict obj) of
                Inl e \<Rightarrow> Inl e
              | Inr t \<Rightarrow>
                  (let disk_id = get_disk_id mbed_drives sn
                   in if hashable disk_id
                      then Inr (dict_set disk_id (info\<lparr>serial := sn, tty := t\<rparr>) r)
                      else Inl TypeError)))"

text \<open>
  \<^verbatim>\<open>def set_mbed_devs(obj):
      for k, v in obj.items():
          if isinstance(v, dict):
              set_mbed_devs(v)
          elif (k == 'IORegistryEntryName' or k == 'kUSBVendorString'
                or k == 'USB Vendor Name') and self.mbed_volume_name_match.search(v):
              ...\<close>
  \<open>set_mbed_devs_loop mbed_drives obj items r\<close> runs the loop over the \<open>items\<close> of
  \<open>obj\<close> still to come.
\<close>

function set_mbed_devs_loop ::
  "pyval \<Rightarrow> (string \<times> pyval) list \<Rightarrow> (string \<times> pyval) list \<Rightarrow> (pyval \<times> usb_info) list
     \<Rightarrow> error + (pyval \<times> usb_info) list"
where
  "set_mbed_devs_loop mbed_drives obj [] r = Inr r"
| "set_mbed_devs_loop mbed_drives obj ((k, v) # items) r =
     (case v of
        PDict d \<Rightarrow>
          (case set_mbed_devs_loop mbed_drives d d r of
             Inl e \<Rightarrow> Inl e
           | Inr r' \<Rightarrow> set_mbed_devs_loop mbed_drives obj items r')
      | _ \<Rightarrow>
          if k = ''IORegistryEntryName'' \<or> k = ''kUSBVendorString'' \<or> k = ''USB Vendor Name''
          then (case mbed_volume_name_match v of
                  Inl e \<Rightarrow> Inl e
                | Inr False \<Rightarrow> set_mbed_devs_loop mbed_drives obj items r
                | Inr True \<Rightarrow>
                    (case record_match mbed_drives obj r of
                       Inl e \<Rightarrow> Inl e
                     | Inr r' \<Rightarrow> set_mbed_devs_loop mbed_drives obj items r'))
          else set_mbed_devs_loop mbed_drives obj items r)"
  by pat_completeness auto
termination
  by (relation "measure (\<lambda>(mbed_drives, obj, items, r). size_list (size_prod (\<lambda>k. 0) size) items)")
    auto

definition set_mbed_devs ::
  "pyval \<Rightarrow> pyval \<Rightarrow> (pyval \<times> usb_info) list \<Rightarrow> error + (pyval \<times> usb_info) list"
where
  "set_mbed_devs mbed_drives obj r =
     (case obj of PDict d \<Rightarrow> set_mbed_devs_loop mbed_drives d d r | _ \<Rightarrow> Inl AttributeError)"

section \<open>The mount resolver and the identity resolver\<close>

text \<open>
  \<^verbatim>\<open>def target_id(self, usb_info):
      if usb_info['serial'] is not None: return usb_info['serial']
      else: return None\<close>
\<close>

definition target_id :: "usb_info \<Rightarrow> pyval" where
  "target_id u = (if serial u \<noteq> PNone then serial u else PNone)"

text \<open>
  \<^verbatim>\<open>def platform_name(self, target_id):
      if target_id[:4] in self.manufacture_ids:
          return self.manufacture_ids[target_id[:4]]\<close>
  The table \<^verbatim>\<open>manufacture_ids\<close> belongs to the base class, which is not part of
  the sources: it is the parameter \<open>ids\<close>, from four-character prefixes to platform
  names.  A slice of a list cannot be hashed, and falling off the end of the function
  returns \<^verbatim>\<open>None\<close>.
\<close>

definition platform_name :: "(string \<rightharpoonup> string) \<Rightarrow> pyval \<Rightarrow> error + pyval" where
  "platform_name ids t =
     (case py_slice4 t of
        Inl e \<Rightarrow> Inl e
      | Inr (PStr p) \<Rightarrow> Inr (case ids p of Some n \<Rightarrow> PStr n | None \<Rightarrow> PNone)
      | Inr _ \<Rightarrow> Inl TypeError)"

text \<open>
  \<^verbatim>\<open>intersection = set(volumes.keys()) & set(mounts.keys())
  for key in intersection: valid_volumes[key] = volumes[key]\<close>
  The keys of \<open>valid_volumes\<close>, in the order the comprehension visits them.  Python
  leaves the order of a set and of a dictionary open; here it is the order of
  \<open>volumes\<close>.
\<close>

definition valid_volumes :: "(pyval \<times> usb_info) list \<Rightarrow> (pyval \<times> pyval) list \<Rightarrow> pyval list" where
  "valid_volumes volumes mounts =
     filter (\<lambda>k. k \<in> set (map fst mounts)) (remdups (map fst volumes))"

text \<open>One element of the list comprehension: the record of the volume \<open>v\<close>.\<close>

definition board_record ::
  "(string \<rightharpoonup> string) \<Rightarrow> (pyval \<times> usb_info) list \<Rightarrow> (pyval \<times> pyval) list \<Rightarrow> pyval
     \<Rightarrow> error + (string \<times> pyval) list"
where
  "board_record ids volumes mounts v =
     (case map_of mounts v of
        None \<Rightarrow> Inl KeyError
      | Some mp \<Rightarrow>
          (case map_of volumes v of
             None \<Rightarrow> Inl KeyError
           | Some u \<Rightarrow>
               (case platform_name ids (target_id u) of
                  Inl e \<Rightarrow> Inl e
                | Inr pn \<Rightarrow>
                    Inr [(''mount_point'', mp), (''serial_port'', tty u),
                         (''target_id'', target_id u), (''platform_name'', pn)])))"

fun board_records ::
  "(string \<rightharpoonup> string) \<Rightarrow> (pyval \<times> usb_info) list \<Rightarrow> (pyval \<times> pyval) list \<Rightarrow> pyval list
     \<Rightarrow> error + (string \<times> pyval) list list"
where
  "board_records ids volumes mounts [] = Inr []"
| "board_records ids volumes mounts (v # vs) =
     (case board_record ids volumes mounts v of
        Inl e \<Rightarrow> Inl e
      | Inr b \<Rightarrow>
          (case board_records ids volumes mounts vs of
             Inl e \<Rightarrow> Inl e
           | Inr bs \<Rightarrow> Inr (b # bs)))"

text \<open>
  The body of the loop \<^verbatim>\<open>for i, _ in enumerate(result)\<close> on one record, with the
  status flag passed through:
  \<^verbatim>\<open>if None in result[i]:
      self.ERRORLEVEL_FLAG = -1
      continue
  if result[i]['mount_point']:
      htm_target_id = self.get_mbed_htm_target_id(result[i]['mount_point'])
      if htm_target_id:
          result[i]['target_id_usb_id'] = result[i]['target_id']
          result[i]['target_id'] = htm_target_id
          result[i]['platform_name'] = self.platform_name(htm_target_id[:4])
      result[i]['target_id_mbed_htm'] = htm_target_id\<close>
  \<^verbatim>\<open>get_mbed_htm_target_id\<close> belongs to the base class, which is not part of the
  sources: it is the parameter \<open>htm\<close>, from a mount point to what was read.
\<close>

definition resolve_identity ::
  "(string \<rightharpoonup> string) \<Rightarrow> (pyval \<Rightarrow> pyval) \<Rightarrow> (string \<times> pyval) list \<Rightarrow> int
     \<Rightarrow> error + ((string \<times> pyval) list \<times> int)"
where
  "resolve_identity ids htm b flag =
     (case py_in PNone (PDict b) of
        Inl e \<Rightarrow> Inl e
      | Inr True \<Rightarrow> Inr (b, - 1)
      | Inr False \<Rightarrow>
          (case py_getitem (PDict b) ''mount_point'' of
             Inl e \<Rightarrow> Inl e
           | Inr mp \<Rightarrow>
               if truthy mp
               then (let htm_target_id = htm mp
                     in if truthy htm_target_id
                        then (case py_getitem (PDict b) ''target_id'' of
                                Inl e \<Rightarrow> Inl e
                              | Inr t \<Rightarrow>
                                  (case py_slice4 htm_target_id of
                                     Inl e \<Rightarrow> Inl e
                                   | Inr h4 \<Rightarrow>
                                       (case platform_name ids h4 of
                                          Inl e \<Rightarrow> Inl e
                                        | Inr pn \<Rightarrow>
                                            Inr (dict_set ''target_id_mbed_htm'' htm_target_id
                                                  (dict_set ''platform_name'' pn
                                                    (dict_set ''target_id'' htm_target_id
                                                      (dict_set ''target_id_usb_id'' t b))),
                                                 flag))))
                        else Inr (dict_set ''target_id_mbed_htm'' htm_target_id b, flag))
               else Inr (b, flag)))"

fun resolve_all ::
  "(string \<rightharpoonup> string) \<Rightarrow> (pyval \<Rightarrow> pyval) \<Rightarrow> (string \<times> pyval) list list \<Rightarrow> int
     \<Rightarrow> error + ((string \<times> pyval) list list \<times> int)"
where
  "resolve_all ids htm [] flag = Inr ([], flag)"
| "resolve_all ids htm (b # bs) flag =
     (case resolve_identity ids htm b flag of
        Inl e \<Rightarrow> Inl e
      | Inr (b', flag') \<Rightarrow>
          (case resolve_all ids htm bs flag' of
             Inl e \<Rightarrow> Inl e
           | Inr (bs', flag'') \<Rightarrow> Inr (b' # bs', flag'')))"

text \<open>
  \<^verbatim>\<open>list_mbeds\<close>, as a function of what \<^verbatim>\<open>get_mbed_volumes\<close> and
  \<^verbatim>\<open>get_mount_points\<close> return: the list of records and the value of
  \<^verbatim>\<open>ERRORLEVEL_FLAG\<close> at the end, or the exception that escapes.
\<close>

definition list_mbeds ::
  "(string \<rightharpoonup> string) \<Rightarrow> (pyval \<Rightarrow> pyval) \<Rightarrow> (pyval \<times> usb_info) list \<Rightarrow> (pyval \<times> pyval) list
     \<Rightarrow> error + ((string \<times> pyval) list list \<times> int)"
where
  "list_mbeds ids htm volumes mounts =
     (case board_records ids volumes mounts (valid_volumes volumes mounts) of
        Inl e \<Rightarrow> Inl e
      | Inr result \<Rightarrow> resolve_all ids htm result 0)"

section \<open>Auxiliary notions of the proofs\<close>

definition prev_word :: "char option \<Rightarrow> bool" where
  "prev_word prev = (case prev of None \<Rightarrow> False | Some c \<Rightarrow> is_word_char c)"

text \<open>The word \<open>w\<close> occurs in \<open>s\<close> as a whole word, where \<open>prev\<close> is the character
  before \<open>s\<close>.\<close>

definition occurs_from :: "string \<Rightarrow> char option \<Rightarrow> string \<Rightarrow> bool" where
  "occurs_from w prev s =
     (\<exists>pre mid post. s = pre @ mid @ post \<and> map lower_char mid = w \<and>
        (if pre = [] then \<not> prev_word prev else \<not> is_word_char (last pre)) \<and>
        (post = [] \<or> \<not> is_word_char (hd post)))"






section \<open>The board pattern is a whole-word, case-insensitive match\<close>

lemma is_word_char_lower: "is_word_char (lower_char c) = is_word_char c"
  unfolding is_word_char_def lower_char_def Let_def
  by auto

lemma match_literal_complete:
  "match_literal (map lower_char mid) prev (mid @ rest) =
     Some (if mid = [] then prev else Some (last mid), rest)"
  by (induction mid arbitrary: prev) auto

lemma match_literal_sound:
  "match_literal lit prev s = Some (p', rest) \<Longrightarrow>
     \<exists>mid. s = mid @ rest \<and> map lower_char mid = lit \<and>
        p' = (if mid = [] then prev else Some (last mid))"
proof (induction lit prev s rule: match_literal.induct)
  case (1 prev s)
  then show ?case by simp
next
  case (2 p ps prev)
  then show ?case by simp
next
  case (3 p ps prev c cs)
  from "3.prems" have eq: "lower_char c = p" and m: "match_literal ps (Some c) cs = Some (p', rest)"
    by (simp_all split: if_splits)
  from "3.IH"[OF eq m] obtain mid where mid: "cs = mid @ rest" "map lower_char mid = ps"
    "p' = (if mid = [] then Some c else Some (last mid))" by blast
  show ?case
  proof (rule exI[of _ "c # mid"])
    show "c # cs = (c # mid) @ rest \<and> map lower_char (c # mid) = p # ps \<and>
      p' = (if c # mid = [] then prev else Some (last (c # mid)))"
      using mid eq by simp
  qed
qed


lemma word_boundary_alt:
  "word_boundary prev rest = (prev_word prev \<noteq> (rest \<noteq> [] \<and> is_word_char (hd rest)))"
  by (cases rest) (simp_all add: word_boundary_def prev_word_def)

lemma match_word_iff:
  assumes lit: "lit \<noteq> []" "is_word_char (hd lit)" "is_word_char (last lit)"
  shows "match_word lit prev s \<longleftrightarrow>
     (\<exists>mid post. s = mid @ post \<and> map lower_char mid = lit \<and> \<not> prev_word prev \<and>
        (post = [] \<or> \<not> is_word_char (hd post)))"
proof
  assume mw: "match_word lit prev s"
  then obtain p' rest where ml: "match_literal lit prev s = Some (p', rest)"
    and b1: "word_boundary prev s" and b2: "word_boundary p' rest"
    by (auto simp: match_word_def split: option.splits)
  from match_literal_sound[OF ml] obtain mid where mid: "s = mid @ rest"
    "map lower_char mid = lit" "p' = (if mid = [] then prev else Some (last mid))" by blast
  from mid(2) lit(1) have ne: "mid \<noteq> []" by auto
  have "lower_char (hd mid) = hd lit" using mid(2) ne by (cases mid) auto
  then have w1: "is_word_char (hd mid)" using lit(2) is_word_char_lower[of "hd mid"] by simp
  have "lower_char (last mid) = last lit" using mid(2) ne by (metis last_map)
  then have w2: "is_word_char (last mid)" using lit(3) is_word_char_lower[of "last mid"] by simp
  have hs: "s \<noteq> []" "hd s = hd mid" using mid(1) ne by auto
  from b1 hs w1 have np: "\<not> prev_word prev" by (simp add: word_boundary_alt)
  from b2 mid(3) ne w2 have "rest = [] \<or> \<not> is_word_char (hd rest)"
    by (auto simp: word_boundary_alt prev_word_def)
  with mid np show "\<exists>mid post. s = mid @ post \<and> map lower_char mid = lit \<and> \<not> prev_word prev \<and>
        (post = [] \<or> \<not> is_word_char (hd post))" by blast
next
  assume "\<exists>mid post. s = mid @ post \<and> map lower_char mid = lit \<and> \<not> prev_word prev \<and>
        (post = [] \<or> \<not> is_word_char (hd post))"
  then obtain mid post where mid: "s = mid @ post" "map lower_char mid = lit"
    and np: "\<not> prev_word prev" and po: "post = [] \<or> \<not> is_word_char (hd post)" by blast
  from mid(2) lit(1) have ne: "mid \<noteq> []" by auto
  have "lower_char (hd mid) = hd lit" using mid(2) ne by (cases mid) auto
  then have w1: "is_word_char (hd mid)" using lit(2) is_word_char_lower[of "hd mid"] by simp
  have "lower_char (last mid) = last lit" using mid(2) ne by (metis last_map)
  then have w2: "is_word_char (last mid)" using lit(3) is_word_char_lower[of "last mid"] by simp
  have ml: "match_literal lit prev s = Some (Some (last mid), post)"
    using match_literal_complete[of mid prev post] mid ne by simp
  have b1: "word_boundary prev s" using np w1 ne mid(1) by (simp add: word_boundary_alt)
  have b2: "word_boundary (Some (last mid)) post" using po w2
    by (auto simp: word_boundary_alt prev_word_def)
  show "match_word lit prev s" using ml b1 b2 by (simp add: match_word_def)
qed

lemma occurs_from_Nil:
  "occurs_from w prev [] \<longleftrightarrow> (w = [] \<and> \<not> prev_word prev)"
  by (auto simp: occurs_from_def)

lemma occurs_from_Cons:
  assumes "w \<noteq> []"
  shows "occurs_from w prev (c # cs) \<longleftrightarrow>
     ((\<exists>mid post. c # cs = mid @ post \<and> map lower_char mid = w \<and> \<not> prev_word prev \<and>
        (post = [] \<or> \<not> is_word_char (hd post))) \<or> occurs_from w (Some c) cs)"
proof
  assume "occurs_from w prev (c # cs)"
  then obtain pre mid post where d: "c # cs = pre @ mid @ post" "map lower_char mid = w"
    "if pre = [] then \<not> prev_word prev else \<not> is_word_char (last pre)"
    "post = [] \<or> \<not> is_word_char (hd post)"
    unfolding occurs_from_def by blast
  show "(\<exists>mid post. c # cs = mid @ post \<and> map lower_char mid = w \<and> \<not> prev_word prev \<and>
        (post = [] \<or> \<not> is_word_char (hd post))) \<or> occurs_from w (Some c) cs"
  proof (cases pre)
    case Nil
    with d show ?thesis by auto
  next
    case (Cons a pre')
    with d(1) have a: "a = c" and cs: "cs = pre' @ mid @ post" by auto
    have "if pre' = [] then \<not> prev_word (Some c) else \<not> is_word_char (last pre')"
      using d(3) Cons a by (auto simp: prev_word_def)
    with cs d(2,4) have "occurs_from w (Some c) cs" unfolding occurs_from_def by blast
    then show ?thesis by simp
  qed
next
  assume r: "(\<exists>mid post. c # cs = mid @ post \<and> map lower_char mid = w \<and> \<not> prev_word prev \<and>
        (post = [] \<or> \<not> is_word_char (hd post))) \<or> occurs_from w (Some c) cs"
  show "occurs_from w prev (c # cs)"
  proof (rule disjE[OF r])
    assume "\<exists>mid post. c # cs = mid @ post \<and> map lower_char mid = w \<and> \<not> prev_word prev \<and>
        (post = [] \<or> \<not> is_word_char (hd post))"
    then obtain mid post where "c # cs = [] @ mid @ post" "map lower_char mid = w"
      "\<not> prev_word prev" "post = [] \<or> \<not> is_word_char (hd post)" by auto
    then show ?thesis unfolding occurs_from_def by (intro exI[of _ "[]"] exI[of _ mid] exI[of _ post]) simp
  next
    assume "occurs_from w (Some c) cs"
    then obtain pre mid post where d: "cs = pre @ mid @ post" "map lower_char mid = w"
      "if pre = [] then \<not> prev_word (Some c) else \<not> is_word_char (last pre)"
      "post = [] \<or> \<not> is_word_char (hd post)"
      unfolding occurs_from_def by blast
    have "c # cs = (c # pre) @ mid @ post" using d(1) by simp
    moreover have "\<not> is_word_char (last (c # pre))" using d(3) by (auto simp: prev_word_def)
    ultimately show ?thesis using d(2,4) unfolding occurs_from_def
      by (intro exI[of _ "c # pre"] exI[of _ mid] exI[of _ post]) simp
  qed
qed

lemma mbed_lit: "''mbed'' \<noteq> []" "is_word_char (hd ''mbed'')" "is_word_char (last ''mbed'')"
  by (simp_all add: is_word_char_def)

lemma segger_lit: "''segger msd'' \<noteq> []" "is_word_char (hd ''segger msd'')"
  "is_word_char (last ''segger msd'')"
  by (simp_all add: is_word_char_def)

lemma search_from_iff:
  "search_from prev s \<longleftrightarrow> (occurs_from ''mbed'' prev s \<or> occurs_from ''segger msd'' prev s)"
proof (induction s arbitrary: prev)
  case Nil
  have "\<not> match_word ''mbed'' prev []" "\<not> match_word ''segger msd'' prev []"
    by (simp_all add: match_word_def)
  then show ?case by (simp add: match_at_def occurs_from_Nil)
next
  case (Cons c cs)
  show ?case
    unfolding search_from.simps match_at_def Cons.IH
      match_word_iff[OF mbed_lit] match_word_iff[OF segger_lit]
      occurs_from_Cons[OF mbed_lit(1)] occurs_from_Cons[OF segger_lit(1)]
    by blast
qed

lemma occurs_from_None: "occurs_from w None s = contains_whole_word w s"
  unfolding occurs_from_def contains_whole_word_def prev_word_def
  by (rule arg_cong[where f=Ex], rule ext, rule arg_cong[where f=Ex], rule ext,
      rule arg_cong[where f=Ex], rule ext) auto

text \<open>
  Claim C5.  For every string the pattern's \<^verbatim>\<open>search\<close> succeeds exactly when the
  string contains ``mbed'' or ``SEGGER MSD'' as a whole word, in any mix of upper and
  lower case; ``Mbed Virtual Serial'' matches and ``Mbedded-widget'' does not.
\<close>

theorem board_pattern_whole_word:
  "mbed_volume_name_match (PStr s) = Inr (board_pattern_spec s) \<and>
   mbed_volume_name_match (PStr ''Mbed Virtual Serial'') = Inr True \<and>
   mbed_volume_name_match (PStr ''Mbedded-widget'') = Inr False"
proof -
  have general: "search_from None s = board_pattern_spec s"
    by (simp add: search_from_iff occurs_from_None board_pattern_spec_def)
  have yes: "search_from None ''Mbed Virtual Serial''"
    by code_simp
  have no: "\<not> search_from None ''Mbedded-widget''"
    by code_simp
  show ?thesis
    using general yes no by (simp add: mbed_volume_name_match_def)
qed

theorem board_pattern_whole_word_witness:
  "board_pattern_spec ''SEGGER msd drive'' \<and> \<not> board_pattern_spec ''mbed_disk''"
proof -
  have "mbed_volume_name_match (PStr ''SEGGER msd drive'') = Inr True"
    unfolding mbed_volume_name_match_def by code_simp
  moreover have "mbed_volume_name_match (PStr ''mbed_disk'') = Inr False"
    unfolding mbed_volume_name_match_def by code_simp
  ultimately show ?thesis
    using board_pattern_whole_word [of "''SEGGER msd drive''"]
      board_pattern_whole_word [of "''mbed_disk''"]
    by simp
qed

section \<open>Tree navigation on every shape of node\<close>

lemma py_eq_PStr: "py_eq x (PStr k) = (x = PStr k)"
  by (cases x) simp_all

lemma list_ex_key: "list_ex (\<lambda>kv. fst kv = k) d = (map_of d k \<noteq> None)"
proof (induction d)
  case Nil
  show ?case by simp
next
  case (Cons a d)
  show ?case
  proof (cases "fst a = k")
    case True
    then show ?thesis by (cases a) simp
  next
    case False
    then show ?thesis using Cons.IH by (cases a) simp
  qed
qed

lemma py_in_dict: "py_in (PStr k) (PDict d) = Inr (map_of d k \<noteq> None)"
  by (simp add: list_ex_key)

lemma py_in_list: "py_in (PStr k) (PList xs) = Inr (PStr k \<in> set xs)"
  by (simp add: py_eq_PStr list_ex_iff)

text \<open>
  Claim C9, as stated, fails: \<^verbatim>\<open>has_children\<close> raises on a number, and on a list
  that holds the key string as an element it answers true, after which
  \<^verbatim>\<open>get_children\<close> raises.
\<close>

theorem tree_navigator_counterexample:
  "has_children (PInt 5) child_key_default = Inl TypeError \<and>
   get_children (PInt 5) child_key_default = Inl TypeError \<and>
   has_children (PList [PStr ''IORegistryEntryChildren'']) child_key_default = Inr True \<and>
   get_children (PList [PStr ''IORegistryEntryChildren'']) child_key_default = Inl TypeError"
  by (simp add: get_children_def has_children_def child_key_default_def)

text \<open>
  Claim C9, amended.  On an absent node and on a mapping the two functions do not fail:
  \<^verbatim>\<open>has_children\<close> is true exactly when the mapping contains the child key, and
  \<^verbatim>\<open>get_children\<close> returns the child collection or \<^verbatim>\<open>None\<close>.  On the other
  shapes they follow Python's \<^verbatim>\<open>in\<close>: a list is searched for an element equal to
  the key and a string for the key as a substring (where the test succeeds,
  \<^verbatim>\<open>get_children\<close> raises \<^verbatim>\<open>TypeError\<close>, otherwise it returns \<^verbatim>\<open>None\<close>), and
  a number raises \<^verbatim>\<open>TypeError\<close> in both.
\<close>

theorem tree_navigator_shapes:
  "has_children PNone ck = Inr False \<and>
   get_children PNone ck = Inr PNone \<and>
   has_children (PDict d) ck = Inr (map_of d ''IORegistryEntryChildren'' \<noteq> None) \<and>
   get_children (PDict d) child_key_default =
     Inr (case map_of d ''IORegistryEntryChildren'' of Some c \<Rightarrow> c | None \<Rightarrow> PNone) \<and>
   has_children (PList xs) ck = Inr (PStr ''IORegistryEntryChildren'' \<in> set xs) \<and>
   get_children (PList xs) ck =
     (if PStr ''IORegistryEntryChildren'' \<in> set xs then Inl TypeError else Inr PNone) \<and>
   has_children (PStr s) ck = Inr (str_contains ''IORegistryEntryChildren'' s) \<and>
   get_children (PStr s) ck =
     (if str_contains ''IORegistryEntryChildren'' s then Inl TypeError else Inr PNone) \<and>
   has_children (PInt n) ck = Inl TypeError \<and>
   get_children (PInt n) ck = Inl TypeError"
  unfolding get_children_def has_children_def child_key_default_def
  by (simp add: py_in_dict py_in_list del: py_in.simps(1,2) split: option.splits)

theorem tree_navigator_shapes_witness:
  "has_children (PDict [(''IORegistryEntryChildren'', PList [])]) child_key_default = Inr True \<and>
   get_children (PDict [(''IORegistryEntryChildren'', PList [])]) child_key_default = Inr (PList []) \<and>
   has_children (PDict [(''IODialinDevice'', PStr ''/dev/tty.usbmodem1'')]) child_key_default = Inr False \<and>
   get_children (PDict [(''IODialinDevice'', PStr ''/dev/tty.usbmodem1'')]) child_key_default = Inr PNone"
  using tree_navigator_shapes [of child_key_default "[(''IORegistryEntryChildren'', PList [])]"]
    tree_navigator_shapes [of child_key_default "[(''IODialinDevice'', PStr ''/dev/tty.usbmodem1'')]"]
  by simp

section \<open>The disk-id lookup\<close>









section \<open>A node that raises ends the scan of its list\<close>









section \<open>One record for each volume that is both correlated and mounted\<close>

lemma map_of_dict_set:
  "map_of (dict_set k v d) k' = (if k' = k then Some v else map_of d k')"
  by (induction d) auto

lemma none_not_key: "py_in PNone (PDict b) = Inr False"
  by (simp add: list_ex_iff)

lemma valid_volumes_distinct: "distinct (valid_volumes volumes mounts)"
  by (simp add: valid_volumes_def)

lemma valid_volumes_set:
  "set (valid_volumes volumes mounts) = fst ` set volumes \<inter> fst ` set mounts"
  by (auto simp: valid_volumes_def)

lemma board_records_all2:
  "board_records ids volumes mounts ks = Inr bs \<Longrightarrow>
   list_all2 (\<lambda>k b. board_record ids volumes mounts k = Inr b) ks bs"
proof (induction ks arbitrary: bs)
  case Nil
  then show ?case by simp
next
  case (Cons k ks)
  from Cons.prems obtain b bs' where b: "board_record ids volumes mounts k = Inr b"
    and bs': "board_records ids volumes mounts ks = Inr bs'" and eq: "bs = b # bs'"
    by (auto split: sum.splits)
  from Cons.IH[OF bs'] b eq show ?case by simp
qed

lemma resolve_identity_flag:
  "resolve_identity ids htm b flag = Inr (b', flag') \<Longrightarrow> flag' = flag"
  unfolding resolve_identity_def none_not_key
  by (auto simp: Let_def split: sum.splits if_splits)

lemma resolve_all_all2:
  "resolve_all ids htm bs flag = Inr (bs', flag') \<Longrightarrow>
   flag' = flag \<and> list_all2 (\<lambda>b b'. resolve_identity ids htm b flag = Inr (b', flag)) bs bs'"
proof (induction bs arbitrary: bs' flag flag')
  case Nil
  then show ?case by simp
next
  case (Cons b bs)
  from Cons.prems obtain b1 f1 bs1 f2 where
    r1: "resolve_identity ids htm b flag = Inr (b1, f1)" and
    r2: "resolve_all ids htm bs f1 = Inr (bs1, f2)" and
    eq: "bs' = b1 # bs1" "flag' = f2"
    by (auto split: sum.splits prod.splits)
  from resolve_identity_flag[OF r1] have f1: "f1 = flag" .
  from Cons.IH[OF r2[unfolded f1]] have "f2 = flag"
    and "list_all2 (\<lambda>b b'. resolve_identity ids htm b flag = Inr (b', flag)) bs bs1"
    by simp_all
  with r1 f1 eq show ?case by simp
qed

lemma list_mbeds_structure:
  assumes "list_mbeds ids htm volumes mounts = Inr (res, flag)"
  shows "flag = 0 \<and>
         list_all2 (\<lambda>k b'. \<exists>b. board_record ids volumes mounts k = Inr b \<and>
                              resolve_identity ids htm b 0 = Inr (b', 0))
           (valid_volumes volumes mounts) res"
proof -
  from assms obtain bs where
    bs: "board_records ids volumes mounts (valid_volumes volumes mounts) = Inr bs" and
    rs: "resolve_all ids htm bs 0 = Inr (res, flag)"
    by (auto simp: list_mbeds_def split: sum.splits)
  from resolve_all_all2[OF rs] have f: "flag = 0"
    and r: "list_all2 (\<lambda>b b'. resolve_identity ids htm b 0 = Inr (b', 0)) bs res"
    by simp_all
  from board_records_all2[OF bs]
  have k: "list_all2 (\<lambda>k b. board_record ids volumes mounts k = Inr b) (valid_volumes volumes mounts) bs" .
  have "list_all2 (\<lambda>k b'. \<exists>b. board_record ids volumes mounts k = Inr b \<and>
                              resolve_identity ids htm b 0 = Inr (b', 0))
           (valid_volumes volumes mounts) res"
    using k r
    by (auto simp: list_all2_conv_all_nth)
  with f show ?thesis by simp
qed

lemma board_record_fields:
  assumes "board_record ids volumes mounts k = Inr b"
  shows "\<exists>mp u pn. map_of mounts k = Some mp \<and> map_of volumes k = Some u \<and>
           platform_name ids (target_id u) = Inr pn \<and>
           b = [(''mount_point'', mp), (''serial_port'', tty u),
                (''target_id'', target_id u), (''platform_name'', pn)]"
  using assms
  by (auto simp: board_record_def split: option.splits sum.splits)

lemma resolve_identity_keeps:
  assumes "resolve_identity ids htm b flag = Inr (b', flag')"
  shows "map_of b' ''mount_point'' = map_of b ''mount_point'' \<and>
         map_of b' ''serial_port'' = map_of b ''serial_port''"
  using assms
  unfolding resolve_identity_def none_not_key
  by (auto simp: Let_def map_of_dict_set split: sum.splits if_splits)

lemma platform_name_PStr:
  "platform_name ids (PStr s) = Inr (case ids (take 4 s) of Some n \<Rightarrow> PStr n | None \<Rightarrow> PNone)"
  by (simp add: platform_name_def)

lemma resolve_identity_on_record:
  "resolve_identity ids htm
     [(''mount_point'', mp), (''serial_port'', sp), (''target_id'', t), (''platform_name'', pn)] flag =
   (if truthy mp
    then (if truthy (htm mp)
          then (case py_slice4 (htm mp) of
                  Inl e \<Rightarrow> Inl e
                | Inr h4 \<Rightarrow>
                    (case platform_name ids h4 of
                       Inl e \<Rightarrow> Inl e
                     | Inr pn' \<Rightarrow>
                         Inr ([(''mount_point'', mp), (''serial_port'', sp), (''target_id'', htm mp),
                               (''platform_name'', pn'), (''target_id_usb_id'', t),
                               (''target_id_mbed_htm'', htm mp)], flag)))
          else Inr ([(''mount_point'', mp), (''serial_port'', sp), (''target_id'', t),
                     (''platform_name'', pn), (''target_id_mbed_htm'', htm mp)], flag))
    else Inr ([(''mount_point'', mp), (''serial_port'', sp), (''target_id'', t),
               (''platform_name'', pn)], flag))"
  unfolding resolve_identity_def none_not_key
  by (simp add: Let_def split: sum.splits)

lemma board_records_return:
  assumes "\<forall>k\<in>set ks. k \<in> fst ` set mounts \<and> (\<exists>u s. map_of volumes k = Some u \<and> serial u = PStr s)"
  shows "\<exists>bs. board_records ids volumes mounts ks = Inr bs"
  using assms
proof (induction ks)
  case Nil
  show ?case by simp
next
  case (Cons k ks)
  from Cons.prems obtain u s where u: "map_of volumes k = Some u" "serial u = PStr s"
    and km: "k \<in> fst ` set mounts" by auto
  from km obtain mp where mp: "map_of mounts k = Some mp"
    by (metis map_of_eq_None_iff not_None_eq)
  from u mp have "\<exists>b. board_record ids volumes mounts k = Inr b"
    by (simp add: board_record_def target_id_def platform_name_PStr)
  moreover from Cons have "\<exists>bs. board_records ids volumes mounts ks = Inr bs" by simp
  ultimately show ?case by auto
qed

lemma resolve_identity_return:
  assumes htm: "\<forall>mp. htm mp = PNone \<or> (\<exists>s. htm mp = PStr s)"
    and b: "board_record ids volumes mounts k = Inr b"
  shows "\<exists>b'. resolve_identity ids htm b flag = Inr (b', flag)"
proof -
  from board_record_fields[OF b] obtain mp u pn where
    bq: "b = [(''mount_point'', mp), (''serial_port'', tty u),
              (''target_id'', target_id u), (''platform_name'', pn)]" by blast
  from htm have "htm mp = PNone \<or> (\<exists>s. htm mp = PStr s)" by blast
  then show ?thesis
  proof
    assume "htm mp = PNone"
    then show ?thesis unfolding bq resolve_identity_on_record by simp
  next
    assume "\<exists>s. htm mp = PStr s"
    then obtain s where "htm mp = PStr s" by blast
    then show ?thesis unfolding bq resolve_identity_on_record
      by (simp add: platform_name_PStr)
  qed
qed

lemma resolve_all_return:
  assumes htm: "\<forall>mp. htm mp = PNone \<or> (\<exists>s. htm mp = PStr s)"
    and bs: "list_all2 (\<lambda>k b. board_record ids volumes mounts k = Inr b) ks bs"
  shows "\<exists>res. resolve_all ids htm bs flag = Inr (res, flag)"
  using bs
proof (induction ks bs rule: list_all2_induct)
  case Nil
  show ?case by simp
next
  case (Cons k ks b bs)
  from resolve_identity_return[OF htm Cons.hyps(1)] obtain b' where
    "resolve_identity ids htm b flag = Inr (b', flag)" by blast
  moreover from Cons.IH obtain res where "resolve_all ids htm bs flag = Inr (res, flag)" by blast
  ultimately show ?case by simp
qed

lemma list_mbeds_returns:
  assumes "\<forall>k\<in>set (valid_volumes volumes mounts). \<exists>u s. map_of volumes k = Some u \<and> serial u = PStr s"
    and htm: "\<forall>mp. htm mp = PNone \<or> (\<exists>s. htm mp = PStr s)"
  shows "\<exists>res. list_mbeds ids htm volumes mounts = Inr (res, 0)"
proof -
  have "\<forall>k\<in>set (valid_volumes volumes mounts).
          k \<in> fst ` set mounts \<and> (\<exists>u s. map_of volumes k = Some u \<and> serial u = PStr s)"
    using assms(1) by (simp add: valid_volumes_set)
  from board_records_return[OF this] obtain bs where
    bs: "board_records ids volumes mounts (valid_volumes volumes mounts) = Inr bs" by blast
  from resolve_all_return[OF htm board_records_all2[OF bs]] obtain res where
    "resolve_all ids htm bs 0 = Inr (res, 0)" by blast
  with bs show ?thesis by (simp add: list_mbeds_def)
qed

text \<open>
  Claim C1.  The comprehension of \<^verbatim>\<open>list_mbeds\<close> runs over \<open>valid_volumes\<close>: its
  keys are pairwise different and are exactly the disk ids that are keys of both the
  correlated-device map and the mount table.  When \<^verbatim>\<open>list_mbeds\<close> returns, the
  sequence has one record for each of these keys, in that order and no other: the
  record of a key holds the mount point the mount table gives for it and the tty of
  its device.  It does return whenever the serial numbers of the surviving devices
  are strings and the metadata reader yields strings or \<^verbatim>\<open>None\<close>.
\<close>

theorem list_mbeds_intersection:
  "distinct (valid_volumes volumes mounts) \<and>
   set (valid_volumes volumes mounts) = fst ` set volumes \<inter> fst ` set mounts \<and>
   (list_mbeds ids htm volumes mounts = Inr (res, flag) \<longrightarrow>
      list_all2 (\<lambda>k b. map_of b ''mount_point'' = map_of mounts k \<and>
                        map_of b ''serial_port'' = map_option tty (map_of volumes k))
        (valid_volumes volumes mounts) res) \<and>
   ((\<forall>k\<in>set (valid_volumes volumes mounts).
        \<exists>u s. map_of volumes k = Some u \<and> serial u = PStr s) \<and>
    (\<forall>mp. htm mp = PNone \<or> (\<exists>s. htm mp = PStr s)) \<longrightarrow>
      (\<exists>res. list_mbeds ids htm volumes mounts = Inr (res, 0)))"
proof (intro conjI impI)
  show "distinct (valid_volumes volumes mounts)" by (rule valid_volumes_distinct)
  show "set (valid_volumes volumes mounts) = fst ` set volumes \<inter> fst ` set mounts"
    by (rule valid_volumes_set)
next
  assume "(\<forall>k\<in>set (valid_volumes volumes mounts).
        \<exists>u s. map_of volumes k = Some u \<and> serial u = PStr s) \<and>
    (\<forall>mp. htm mp = PNone \<or> (\<exists>s. htm mp = PStr s))"
  then show "\<exists>res. list_mbeds ids htm volumes mounts = Inr (res, 0)"
    using list_mbeds_returns [of volumes mounts htm ids] by blast
next
  assume "list_mbeds ids htm volumes mounts = Inr (res, flag)"
  from list_mbeds_structure[OF this]
  have s: "list_all2 (\<lambda>k b'. \<exists>b. board_record ids volumes mounts k = Inr b \<and>
                              resolve_identity ids htm b 0 = Inr (b', 0))
           (valid_volumes volumes mounts) res" by simp
  show "list_all2 (\<lambda>k b. map_of b ''mount_point'' = map_of mounts k \<and>
                        map_of b ''serial_port'' = map_option tty (map_of volumes k))
        (valid_volumes volumes mounts) res"
  proof (rule list_all2_mono[OF s])
    fix k b'
    assume "\<exists>b. board_record ids volumes mounts k = Inr b \<and>
                 resolve_identity ids htm b 0 = Inr (b', 0)"
    then obtain b where b: "board_record ids volumes mounts k = Inr b"
      and r: "resolve_identity ids htm b 0 = Inr (b', 0)" by blast
    from board_record_fields[OF b] resolve_identity_keeps[OF r]
    show "map_of b' ''mount_point'' = map_of mounts k \<and>
          map_of b' ''serial_port'' = map_option tty (map_of volumes k)"
      by auto
  qed
qed


theorem list_mbeds_intersection_witness:
  "list_mbeds Map.empty (\<lambda>mp. PNone)
     [(PStr ''disk2s1'', \<lparr>serial = PStr ''9999'', vendor_id = PNone, product_id = PNone,
                           tty = PStr ''/dev/tty.usbmodem1''\<rparr>),
      (PNone, \<lparr>serial = PStr ''0240'', vendor_id = PNone, product_id = PNone, tty = PNone\<rparr>)]
     [(PStr ''disk0s2'', PStr ''/''), (PStr ''disk2s1'', PStr ''/Volumes/MBED'')] =
   Inr ([[(''mount_point'', PStr ''/Volumes/MBED''), (''serial_port'', PStr ''/dev/tty.usbmodem1''),
          (''target_id'', PStr ''9999''), (''platform_name'', PNone),
          (''target_id_mbed_htm'', PNone)]], 0) \<and>
   list_all2 (\<lambda>k b. map_of b ''mount_point'' = map_of
        [(PStr ''disk0s2'', PStr ''/''), (PStr ''disk2s1'', PStr ''/Volumes/MBED'')] k \<and>
        map_of b ''serial_port'' = map_option tty (map_of
        [(PStr ''disk2s1'', \<lparr>serial = PStr ''9999'', vendor_id = PNone, product_id = PNone,
                           tty = PStr ''/dev/tty.usbmodem1''\<rparr>),
         (PNone, \<lparr>serial = PStr ''0240'', vendor_id = PNone, product_id = PNone, tty = PNone\<rparr>)] k))
     (valid_volumes
        [(PStr ''disk2s1'', \<lparr>serial = PStr ''9999'', vendor_id = PNone, product_id = PNone,
                           tty = PStr ''/dev/tty.usbmodem1''\<rparr>),
         (PNone, \<lparr>serial = PStr ''0240'', vendor_id = PNone, product_id = PNone, tty = PNone\<rparr>)]
        [(PStr ''disk0s2'', PStr ''/''), (PStr ''disk2s1'', PStr ''/Volumes/MBED'')])
     [[(''mount_point'', PStr ''/Volumes/MBED''), (''serial_port'', PStr ''/dev/tty.usbmodem1''),
          (''target_id'', PStr ''9999''), (''platform_name'', PNone),
          (''target_id_mbed_htm'', PNone)]]"
proof -
  let ?V = "[(PStr ''disk2s1'', \<lparr>serial = PStr ''9999'', vendor_id = PNone, product_id = PNone,
                           tty = PStr ''/dev/tty.usbmodem1''\<rparr>),
      (PNone, \<lparr>serial = PStr ''0240'', vendor_id = PNone, product_id = PNone, tty = PNone\<rparr>)]"
  let ?M = "[(PStr ''disk0s2'', PStr ''/''), (PStr ''disk2s1'', PStr ''/Volumes/MBED'')]"
  let ?res = "[[(''mount_point'', PStr ''/Volumes/MBED''), (''serial_port'', PStr ''/dev/tty.usbmodem1''),
          (''target_id'', PStr ''9999''), (''platform_name'', PNone),
          (''target_id_mbed_htm'', PNone)]]"
  have ret: "list_mbeds Map.empty (\<lambda>mp. PNone) ?V ?M = Inr (?res, 0)"
    by (simp add: list_mbeds_def valid_volumes_def board_record_def target_id_def
      platform_name_def resolve_identity_on_record)
  from list_mbeds_intersection [of ?V ?M Map.empty "\<lambda>mp. PNone" ?res 0] ret
  show ?thesis by blast
qed

section \<open>The identity resolver\<close>

text \<open>
  Claim C6, as stated, fails on a mount point or an identifier that is present but
  empty: both tests of the loop are truth-value tests.  With the mount point \<open>''\<close>
  the metadata reader is not consulted and the record keeps its four fields; with the
  identifier \<open>''\<close> the target id stays the USB serial number.
\<close>

theorem identity_resolver_counterexample:
  "list_mbeds Map.empty (\<lambda>mp. PStr ''0200ABCDEF'')
     [(PStr ''disk2s1'', \<lparr>serial = PStr ''9999'', vendor_id = PNone, product_id = PNone,
                           tty = PStr ''/dev/tty.usbmodem1''\<rparr>)]
     [(PStr ''disk2s1'', PStr [])] =
   Inr ([[(''mount_point'', PStr []), (''serial_port'', PStr ''/dev/tty.usbmodem1''),
          (''target_id'', PStr ''9999''), (''platform_name'', PNone)]], 0) \<and>
   list_mbeds Map.empty (\<lambda>mp. PStr [])
     [(PStr ''disk2s1'', \<lparr>serial = PStr ''9999'', vendor_id = PNone, product_id = PNone,
                           tty = PStr ''/dev/tty.usbmodem1''\<rparr>)]
     [(PStr ''disk2s1'', PStr ''/Volumes/MBED'')] =
   Inr ([[(''mount_point'', PStr ''/Volumes/MBED''), (''serial_port'', PStr ''/dev/tty.usbmodem1''),
          (''target_id'', PStr ''9999''), (''platform_name'', PNone),
          (''target_id_mbed_htm'', PStr [])]], 0)"
  by (simp add: list_mbeds_def valid_volumes_def board_record_def target_id_def
      platform_name_def resolve_identity_on_record)

text \<open>
  Claim C6, amended.  Take the record at position \<open>i\<close> of what \<^verbatim>\<open>list_mbeds\<close>
  returns, built from the volume with mount point \<open>mp\<close> and USB data \<open>u\<close>.
  \<^item> If \<open>mp\<close> is true as a truth value (present and not empty) and the reader yields
    a non-empty string \<open>x\<close>, the record has \<open>target_id = x\<close>,
    \<open>target_id_usb_id\<close> the original target id, \<open>target_id_mbed_htm = x\<close> and
    \<open>platform_name\<close> looked up from the first four characters of \<open>x\<close>.
  \<^item> If \<open>mp\<close> is true and the reader yields \<^verbatim>\<open>None\<close> (or another false value),
    \<open>target_id_mbed_htm\<close> is present with that value, \<open>target_id_usb_id\<close> is not
    set and the other fields are as built.
  \<^item> If \<open>mp\<close> is false (absent or empty) the record is left as built.
\<close>

theorem identity_resolver:
  assumes ret: "list_mbeds ids htm volumes mounts = Inr (res, flag)"
    and i: "i < length res"
    and mp: "map_of mounts (valid_volumes volumes mounts ! i) = Some mp"
    and u: "map_of volumes (valid_volumes volumes mounts ! i) = Some u"
  shows "(truthy mp \<and> htm mp = PStr x \<and> x \<noteq> [] \<longrightarrow>
            map_of (res ! i) ''target_id'' = Some (PStr x) \<and>
            map_of (res ! i) ''target_id_usb_id'' = Some (target_id u) \<and>
            map_of (res ! i) ''target_id_mbed_htm'' = Some (PStr x) \<and>
            map_of (res ! i) ''platform_name'' =
              Some (case ids (take 4 x) of Some n \<Rightarrow> PStr n | None \<Rightarrow> PNone) \<and>
            map_of (res ! i) ''mount_point'' = Some mp \<and>
            map_of (res ! i) ''serial_port'' = Some (tty u)) \<and>
         (truthy mp \<and> \<not> truthy (htm mp) \<longrightarrow>
            map_of (res ! i) ''target_id_mbed_htm'' = Some (htm mp) \<and>
            map_of (res ! i) ''target_id_usb_id'' = None \<and>
            map_of (res ! i) ''target_id'' = Some (target_id u) \<and>
            map_option Inr (map_of (res ! i) ''platform_name'') =
              Some (platform_name ids (target_id u)) \<and>
            map_of (res ! i) ''mount_point'' = Some mp \<and>
            map_of (res ! i) ''serial_port'' = Some (tty u)) \<and>
         (\<not> truthy mp \<longrightarrow>
            board_record ids volumes mounts (valid_volumes volumes mounts ! i) = Inr (res ! i))"
proof -
  let ?k = "valid_volumes volumes mounts ! i"
  from list_mbeds_structure[OF ret]
  have s: "list_all2 (\<lambda>k b'. \<exists>b. board_record ids volumes mounts k = Inr b \<and>
                              resolve_identity ids htm b 0 = Inr (b', 0))
           (valid_volumes volumes mounts) res" by simp
  from list_all2_nthD2[OF s i]
  obtain b where b: "board_record ids volumes mounts ?k = Inr b"
    and r: "resolve_identity ids htm b 0 = Inr (res ! i, 0)" by blast
  from board_record_fields[OF b] mp u obtain pn where
    pn: "platform_name ids (target_id u) = Inr pn" and
    bq: "b = [(''mount_point'', mp), (''serial_port'', tty u),
              (''target_id'', target_id u), (''platform_name'', pn)]"
    by auto
  note r' = r[unfolded bq resolve_identity_on_record]
  have c1: "map_of (res ! i) ''target_id'' = Some (PStr x) \<and>
            map_of (res ! i) ''target_id_usb_id'' = Some (target_id u) \<and>
            map_of (res ! i) ''target_id_mbed_htm'' = Some (PStr x) \<and>
            map_of (res ! i) ''platform_name'' =
              Some (case ids (take 4 x) of Some n \<Rightarrow> PStr n | None \<Rightarrow> PNone) \<and>
            map_of (res ! i) ''mount_point'' = Some mp \<and>
            map_of (res ! i) ''serial_port'' = Some (tty u)"
    if "truthy mp" "htm mp = PStr x" "x \<noteq> []"
  proof -
    from r' that have "res ! i = [(''mount_point'', mp), (''serial_port'', tty u),
        (''target_id'', PStr x),
        (''platform_name'', case ids (take 4 x) of Some n \<Rightarrow> PStr n | None \<Rightarrow> PNone),
        (''target_id_usb_id'', target_id u), (''target_id_mbed_htm'', PStr x)]"
      by (simp add: platform_name_PStr)
    then show ?thesis by simp
  qed
  have c2: "map_of (res ! i) ''target_id_mbed_htm'' = Some (htm mp) \<and>
            map_of (res ! i) ''target_id_usb_id'' = None \<and>
            map_of (res ! i) ''target_id'' = Some (target_id u) \<and>
            map_option Inr (map_of (res ! i) ''platform_name'') =
              Some (platform_name ids (target_id u)) \<and>
            map_of (res ! i) ''mount_point'' = Some mp \<and>
            map_of (res ! i) ''serial_port'' = Some (tty u)"
    if "truthy mp" "\<not> truthy (htm mp)"
  proof -
    from r' that have "res ! i = [(''mount_point'', mp), (''serial_port'', tty u),
        (''target_id'', target_id u), (''platform_name'', pn), (''target_id_mbed_htm'', htm mp)]"
      by simp
    then show ?thesis using pn by simp
  qed
  have c3: "board_record ids volumes mounts ?k = Inr (res ! i)" if "\<not> truthy mp"
  proof -
    from r' that have "res ! i = b" by (simp add: bq)
    with b show ?thesis by simp
  qed
  from c1 c2 c3 show ?thesis by blast
qed

theorem identity_resolver_witness:
  "list_mbeds [''0200'' \<mapsto> ''KL25Z''] (\<lambda>mp. PStr ''0200ABCDEF'')
     [(PStr ''disk2s1'', \<lparr>serial = PStr ''9999'', vendor_id = PNone, product_id = PNone,
                           tty = PStr ''/dev/tty.usbmodem1''\<rparr>)]
     [(PStr ''disk2s1'', PStr ''/Volumes/MBED'')] =
   Inr ([[(''mount_point'', PStr ''/Volumes/MBED''), (''serial_port'', PStr ''/dev/tty.usbmodem1''),
          (''target_id'', PStr ''0200ABCDEF''), (''platform_name'', PStr ''KL25Z''),
          (''target_id_usb_id'', PStr ''9999''), (''target_id_mbed_htm'', PStr ''0200ABCDEF'')]], 0) \<and>
   list_mbeds [''0200'' \<mapsto> ''KL25Z''] (\<lambda>mp. PNone)
     [(PStr ''disk2s1'', \<lparr>serial = PStr ''9999'', vendor_id = PNone, product_id = PNone,
                           tty = PStr ''/dev/tty.usbmodem1''\<rparr>)]
     [(PStr ''disk2s1'', PStr ''/Volumes/MBED'')] =
   Inr ([[(''mount_point'', PStr ''/Volumes/MBED''), (''serial_port'', PStr ''/dev/tty.usbmodem1''),
          (''target_id'', PStr ''9999''), (''platform_name'', PNone),
          (''target_id_mbed_htm'', PNone)]], 0)"
proof -
  let ?ids = "[''0200'' \<mapsto> ''KL25Z'']"
  let ?u = "\<lparr>serial = PStr ''9999'', vendor_id = PNone, product_id = PNone,
            tty = PStr ''/dev/tty.usbmodem1''\<rparr>"
  let ?V = "[(PStr ''disk2s1'', ?u)]"
  let ?M = "[(PStr ''disk2s1'', PStr ''/Volumes/MBED'')]"
  obtain res1 where r1: "list_mbeds ?ids (\<lambda>mp. PStr ''0200ABCDEF'') ?V ?M = Inr (res1, 0)"
    using list_mbeds_returns [of ?V ?M "\<lambda>mp. PStr ''0200ABCDEF''" ?ids]
    by (auto simp: valid_volumes_def)
  obtain res2 where r2: "list_mbeds ?ids (\<lambda>mp. PNone) ?V ?M = Inr (res2, 0)"
    using list_mbeds_returns [of ?V ?M "\<lambda>mp. PNone" ?ids]
    by (auto simp: valid_volumes_def)
  have l1: "length res1 = 1" and l2: "length res2 = 1"
    using list_mbeds_structure[OF r1] list_mbeds_structure[OF r2]
    by (auto simp: valid_volumes_def dest: list_all2_lengthD)
  have k: "valid_volumes ?V ?M ! 0 = PStr ''disk2s1''"
    by (simp add: valid_volumes_def)
  have f1: "map_of (res1 ! 0) ''target_id'' = Some (PStr ''0200ABCDEF'') \<and>
            map_of (res1 ! 0) ''target_id_usb_id'' = Some (PStr ''9999'') \<and>
            map_of (res1 ! 0) ''target_id_mbed_htm'' = Some (PStr ''0200ABCDEF'') \<and>
            map_of (res1 ! 0) ''platform_name'' = Some (PStr ''KL25Z'')"
    using identity_resolver [OF r1, of 0 "PStr ''/Volumes/MBED''" ?u "''0200ABCDEF''"] l1 k
    by (simp add: target_id_def)
  have f2: "map_of (res2 ! 0) ''target_id_mbed_htm'' = Some PNone \<and>
            map_of (res2 ! 0) ''target_id_usb_id'' = None \<and>
            map_of (res2 ! 0) ''target_id'' = Some (PStr ''9999'')"
    using identity_resolver [OF r2, of 0 "PStr ''/Volumes/MBED''" ?u "''0200ABCDEF''"] l2 k
    by (simp add: target_id_def)
  have e1: "list_mbeds ?ids (\<lambda>mp. PStr ''0200ABCDEF'') ?V ?M =
      Inr ([[(''mount_point'', PStr ''/Volumes/MBED''), (''serial_port'', PStr ''/dev/tty.usbmodem1''),
          (''target_id'', PStr ''0200ABCDEF''), (''platform_name'', PStr ''KL25Z''),
          (''target_id_usb_id'', PStr ''9999''), (''target_id_mbed_htm'', PStr ''0200ABCDEF'')]], 0)"
    by (simp add: list_mbeds_def valid_volumes_def board_record_def target_id_def
      platform_name_def resolve_identity_on_record)
  have e2: "list_mbeds ?ids (\<lambda>mp. PNone) ?V ?M =
      Inr ([[(''mount_point'', PStr ''/Volumes/MBED''), (''serial_port'', PStr ''/dev/tty.usbmodem1''),
          (''target_id'', PStr ''9999''), (''platform_name'', PNone),
          (''target_id_mbed_htm'', PNone)]], 0)"
    by (simp add: list_mbeds_def valid_volumes_def board_record_def target_id_def
      platform_name_def resolve_identity_on_record)
  from f1 f2 e1 e2 show ?thesis by blast
qed

section \<open>An absent target id\<close>

text \<open>What \<^verbatim>\<open>platform_name\<close> does when the target id is a string: the table is
  asked for the first four characters, and an unknown prefix gives \<^verbatim>\<open>None\<close>.\<close>

lemma platform_name_unrecognized:
  "ids (take 4 s) = None \<Longrightarrow> platform_name ids (PStr s) = Inr PNone"
  by (simp add: platform_name_PStr)




section \<open>The status flag\<close>

text \<open>
  Claim C3 does not hold of the code.  \<^verbatim>\<open>None in result[i]\<close> asks whether
  \<^verbatim>\<open>None\<close> is a key of the record, and the keys are the field names: the test is
  never true, so \<^verbatim>\<open>ERRORLEVEL_FLAG\<close> is 0 whenever \<^verbatim>\<open>list_mbeds\<close> returns, also
  when a record holds an absent value.
\<close>

theorem status_flag_never_set:
  "list_mbeds ids htm volumes mounts = Inr (res, flag) \<Longrightarrow> flag = 0"
  using list_mbeds_structure by blast

text \<open>A board without tty and with an unknown prefix: the record holds three absent
  values and the flag is 0.\<close>

theorem status_flag_never_set_witness:
  "\<exists>flag. list_mbeds Map.empty (\<lambda>mp. PNone)
     [(PStr ''disk2s1'', \<lparr>serial = PStr ''9999'', vendor_id = PNone, product_id = PNone,
                           tty = PNone\<rparr>)]
     [(PStr ''disk2s1'', PStr ''/Volumes/MBED'')] =
   Inr ([[(''mount_point'', PStr ''/Volumes/MBED''), (''serial_port'', PNone),
          (''target_id'', PStr ''9999''), (''platform_name'', PNone),
          (''target_id_mbed_htm'', PNone)]], flag) \<and> flag = 0"
proof -
  let ?V = "[(PStr ''disk2s1'', \<lparr>serial = PStr ''9999'', vendor_id = PNone, product_id = PNone,
                           tty = PNone\<rparr>)]"
  let ?M = "[(PStr ''disk2s1'', PStr ''/Volumes/MBED'')]"
  let ?res = "[[(''mount_point'', PStr ''/Volumes/MBED''), (''serial_port'', PNone),
          (''target_id'', PStr ''9999''), (''platform_name'', PNone),
          (''target_id_mbed_htm'', PNone)]]"
  have "\<exists>flag. list_mbeds Map.empty (\<lambda>mp. PNone) ?V ?M = Inr (?res, flag)"
    by (simp add: list_mbeds_def valid_volumes_def board_record_def target_id_def
      platform_name_def resolve_identity_on_record)
  then obtain flag where r: "list_mbeds Map.empty (\<lambda>mp. PNone) ?V ?M = Inr (?res, flag)"
    by blast
  from status_flag_never_set [OF r] r show ?thesis by blast
qed

section \<open>The correlator does not stop at the first match\<close>

text \<open>
  Claim C4 does not hold of the code.  The comment in \<^verbatim>\<open>set_mbed_devs\<close> says ``stop
  at the first one we find'', but the loop has no \<^verbatim>\<open>break\<close> or \<^verbatim>\<open>return\<close>: every
  mapping-valued entry of a node is descended into, before or after the node itself
  matched.  A matched node with serial number A whose nested mapping matches with
  serial number B yields two entries; and when neither serial number is known to the
  topology list, both go under the key \<^verbatim>\<open>None\<close> and the descendant's entry replaces
  the node's.
\<close>

theorem set_mbed_devs_descends_after_match:
  "set_mbed_devs
     (PList [PDict [(''serial_num'', PStr ''A''), (''bsd_name'', PStr ''disk2s1'')],
             PDict [(''serial_num'', PStr ''B''), (''bsd_name'', PStr ''disk3s1'')]])
     (PDict [(''IORegistryEntryName'', PStr ''MBED CMSIS-DAP''),
             (''USB Serial Number'', PStr ''A''),
             (''Interface'', PDict [(''IORegistryEntryName'', PStr ''mbed Serial Port''),
                                    (''USB Serial Number'', PStr ''B'')])])
     [] =
   Inr [(PStr ''disk2s1'', \<lparr>serial = PStr ''A'', vendor_id = PNone, product_id = PNone, tty = PNone\<rparr>),
        (PStr ''disk3s1'', \<lparr>serial = PStr ''B'', vendor_id = PNone, product_id = PNone, tty = PNone\<rparr>)] \<and>
   set_mbed_devs (PList [])
     (PDict [(''IORegistryEntryName'', PStr ''MBED CMSIS-DAP''),
             (''USB Serial Number'', PStr ''A''),
             (''Interface'', PDict [(''IORegistryEntryName'', PStr ''mbed Serial Port''),
                                    (''USB Serial Number'', PStr ''B'')])])
     [] =
   Inr [(PNone, \<lparr>serial = PStr ''B'', vendor_id = PNone, product_id = PNone, tty = PNone\<rparr>)]"
  by code_simp

section \<open>The tty helper does not look into a list of children\<close>

text \<open>\<^verbatim>\<open>find_tty\<close> follows the chain node, \<^verbatim>\<open>node[children]\<close>,
  \<^verbatim>\<open>node[children][children]\<close>, ...: a mapping on the chain that carries the
  field answers.\<close>

lemma find_tty_here:
  "map_of d ''IODialinDevice'' = Some v \<Longrightarrow> find_tty (PDict d) = Inr v"
  by simp

lemma find_tty_descend:
  "map_of d ''IODialinDevice'' = None \<Longrightarrow> map_of d ''IORegistryEntryChildren'' = Some c \<Longrightarrow>
   find_tty (PDict d) = find_tty c"
  unfolding find_tty.simps [of "PDict d"]
  by (simp add: has_children_def get_children_def child_key_default_def py_in_dict
      del: py_in.simps find_tty.simps)

lemma find_tty_leaf:
  "map_of d ''IODialinDevice'' = None \<Longrightarrow> map_of d ''IORegistryEntryChildren'' = None \<Longrightarrow>
   find_tty (PDict d) = Inr PNone"
  unfolding find_tty.simps [of "PDict d"]
  by (simp add: has_children_def get_children_def child_key_default_def py_in_dict
      del: py_in.simps find_tty.simps)

text \<open>
  Claim C7 does not hold of the code.  The registry stores the children of a node as
  a list of nodes, and \<^verbatim>\<open>find_tty\<close> treats the child collection as one node: on a
  list it finds neither the field nor the child key and returns \<^verbatim>\<open>None\<close>, although
  a child carries the dial-in device; it finds the device only when the child
  collection is itself a mapping, and it raises when the child collection is a number.
\<close>

theorem find_tty_misses_list_children:
  "find_tty (PDict [(''USB Serial Number'', PStr ''9999''),
                    (''IORegistryEntryChildren'',
                       PList [PDict [(''IODialinDevice'', PStr ''/dev/tty.usbmodem1'')]])]) = Inr PNone \<and>
   find_tty (PDict [(''USB Serial Number'', PStr ''9999''),
                    (''IORegistryEntryChildren'',
                       PDict [(''IODialinDevice'', PStr ''/dev/tty.usbmodem1'')])]) =
     Inr (PStr ''/dev/tty.usbmodem1'') \<and>
   find_tty (PDict [(''USB Serial Number'', PStr ''9999''),
                    (''IORegistryEntryChildren'', PInt 1)]) = Inl TypeError"
  by code_simp

end
